theory Spec2Isabelle
  imports Complex_Main "HOL-Library.Word" "HOL-Library.AList"
begin

section \<open>Python values, exceptions and string primitives\<close>

text \<open>
  The scripts \<^verbatim>\<open>pico-json.py\<close> and \<^verbatim>\<open>pico-raw.py\<close> work on Python strings, ints, floats
  and dicts. Strings are modelled as \<^typ>\<open>string\<close>, Python's unbounded ints as \<^typ>\<open>int\<close>,
  a raised exception as the left summand of \<open>error + 'a\<close>, and a dict as an association
  list updated with \<^const>\<open>AList.update\<close>, which keeps a key's first position as Python's
  dict does. A loop that may run forever is a \<^theory_text>\<open>partial_function\<close> in the option monad:
  \<^const>\<open>None\<close> means that the call does not return.
\<close>

datatype error = ValueError | TypeError | KeyError | IndexError

text \<open>The slice \<^verbatim>\<open>s[a:b]\<close> for constant bounds \<open>0 \<le> a \<le> b\<close>; \<^verbatim>\<open>s[a:]\<close> is \<^term>\<open>drop a s\<close>.\<close>

definition substr :: "nat \<Rightarrow> nat \<Rightarrow> 'a list \<Rightarrow> 'a list" where
  "substr a b s = take (b - a) (drop a s)"

text \<open>
  The characters below 256 that \<^verbatim>\<open>str.split()\<close> treats as whitespace, and those that
  \<^verbatim>\<open>int(s, 16)\<close> strips: \<^verbatim>\<open>int\<close> does not strip the separators \<^verbatim>\<open>\x1c\<close> to \<^verbatim>\<open>\x1f\<close>.
\<close>

definition is_space :: "char \<Rightarrow> bool" where
  "is_space c = ((of_char c :: nat) \<in> {9, 10, 11, 12, 13, 28, 29, 30, 31, 32, 133, 160})"

definition is_int_space :: "char \<Rightarrow> bool" where
  "is_int_space c = ((of_char c :: nat) \<in> {9, 10, 11, 12, 13, 32, 133, 160})"

definition digit_val :: "char \<Rightarrow> nat option" where
  "digit_val c =
     (let n = (of_char c :: nat) in
      if 48 \<le> n \<and> n \<le> 57 then Some (n - 48)
      else if 97 \<le> n \<and> n \<le> 102 then Some (n - 87)
      else if 65 \<le> n \<and> n \<le> 70 then Some (n - 55)
      else None)"

text \<open>
  \<^verbatim>\<open>int(s, 16)\<close>: surrounding whitespace is stripped, one sign and one \<^verbatim>\<open>0x\<close> prefix are
  accepted, and single underscores may separate digits (one may follow the prefix).
  Anything else raises \<^verbatim>\<open>ValueError\<close>. Digits are the ASCII hex digits; the decimal
  digits of other scripts, which Python also accepts, are code points above 255.
  \<open>scan_digits us acc s\<close> reads the digits; \<open>us\<close> says that the previous character was an
  underscore.
\<close>

fun scan_digits :: "bool \<Rightarrow> int \<Rightarrow> string \<Rightarrow> int option" where
  "scan_digits us acc [] = (if us then None else Some acc)"
| "scan_digits us acc (c # cs) =
     (if c = CHR ''_'' then (if us then None else scan_digits True acc cs)
      else (case digit_val c of
              None \<Rightarrow> None
            | Some d \<Rightarrow> scan_digits False (16 * acc + int d) cs))"

definition py_strip :: "string \<Rightarrow> string" where
  "py_strip s = rev (dropWhile is_int_space (rev (dropWhile is_int_space s)))"

definition int16 :: "string \<Rightarrow> error + int" where
  "int16 s =
     (let t = py_strip s;
          neg = (take 1 t = ''-'');
          t1 = (if take 1 t = ''-'' \<or> take 1 t = ''+'' then drop 1 t else t);
          t2 = (if take 2 t1 = ''0x'' \<or> take 2 t1 = ''0X''
                then (if take 1 (drop 2 t1) = ''_'' then drop 3 t1 else drop 2 t1)
                else t1)
      in if t2 = [] \<or> take 1 t2 = ''_'' then Inl ValueError
         else (case scan_digits False 0 t2 of
                 None \<Rightarrow> Inl ValueError
               | Some n \<Rightarrow> Inr (if neg then - n else n)))"

text \<open>\<^verbatim>\<open>s.replace(' ', '')\<close>, which is also \<^verbatim>\<open>''.join(s.split(" "))\<close>.\<close>

definition remove_spaces :: "string \<Rightarrow> string" where
  "remove_spaces s = filter (\<lambda>c. c \<noteq> CHR '' '') s"

text \<open>
  \<^verbatim>\<open>chr(n)\<close> raises \<^verbatim>\<open>ValueError\<close> for a negative argument. The argument here is always
  the value of a literal of at most two characters, hence at most 255; code points from
  256 on are outside \<^typ>\<open>char\<close> and are not reached.
\<close>

definition py_chr :: "int \<Rightarrow> error + char" where
  "py_chr n = (if 0 \<le> n \<and> n < 256 then Inr (char_of n) else Inl ValueError)"

fun hex_pairs :: "string \<Rightarrow> error + string" where
  "hex_pairs [] = Inr []"
| "hex_pairs [c] =
     (case int16 [c] of Inl e \<Rightarrow> Inl e | Inr n \<Rightarrow>
      (case py_chr n of Inl e \<Rightarrow> Inl e | Inr x \<Rightarrow> Inr [x]))"
| "hex_pairs (c # d # cs) =
     (case int16 [c, d] of Inl e \<Rightarrow> Inl e | Inr n \<Rightarrow>
      (case py_chr n of Inl e \<Rightarrow> Inl e | Inr x \<Rightarrow>
       (case hex_pairs cs of Inl e \<Rightarrow> Inl e | Inr xs \<Rightarrow> Inr (x # xs))))"

definition HexToByte :: "string \<Rightarrow> error + string" where
  "HexToByte hexStr = hex_pairs (remove_spaces hexStr)"

section \<open>The field codec: getNextField\<close>

text \<open>
  A decoded field value is the list \<^verbatim>\<open>[a, b]\<close> of two ints or a string; the "no data"
  value of a type-3 field is the empty string \<^verbatim>\<open>''\<close>.
\<close>

datatype field_data = IntPair int int | Text string

abbreviation Absent :: field_data where
  "Absent \<equiv> Text []"

type_synonym field = "int \<times> field_data \<times> string"

text \<open>The two integers of an 11-character payload \<^verbatim>\<open>data\<close> (lines 84-86 and 94-96).\<close>

definition int_pair :: "string \<Rightarrow> error + field_data" where
  "int_pair data =
     (case int16 (remove_spaces (substr 0 5 data)) of Inl e \<Rightarrow> Inl e | Inr a \<Rightarrow>
      (case int16 (remove_spaces (substr 6 11 data)) of Inl e \<Rightarrow> Inl e | Inr b \<Rightarrow>
       Inr (IntPair a b)))"

text \<open>
  The loop of the text field (lines 100-105): \<^verbatim>\<open>nextHex\<close> is always \<^verbatim>\<open>response[0:2]\<close>.
  It returns the accumulated \<^verbatim>\<open>word\<close> and the \<^verbatim>\<open>response\<close> left when it stops.
\<close>

partial_function (option) scan_text :: "string \<Rightarrow> string \<Rightarrow> (string \<times> string) option" where
  "scan_text word response =
     (if substr 0 2 response \<noteq> ''00''
      then scan_text (word @ substr 0 2 response) (drop 3 response)
      else Some (word, response))"

declare scan_text.simps [code]

text \<open>
  \<^verbatim>\<open>getNextField\<close> returns a tuple, or Python's \<^verbatim>\<open>None\<close> when it falls through to the
  \<^verbatim>\<open>debug\<close> call of line 109 (the inner \<^const>\<open>None\<close>); the environment-gated debug output
  itself is not modelled. The outer option is non-termination.
\<close>

definition getNextField :: "string \<Rightarrow> (error + field option) option" where
  "getNextField response =
     (case int16 (substr 0 2 response) of Inl e \<Rightarrow> Some (Inl e) | Inr field_nr \<Rightarrow>
      (case int16 (substr 3 5 response) of Inl e \<Rightarrow> Some (Inl e) | Inr field_type \<Rightarrow>
       if field_type = 1 then
         (case int_pair (substr 6 17 response) of
            Inl e \<Rightarrow> Some (Inl e)
          | Inr field_data \<Rightarrow> Some (Inr (Some (field_nr, field_data, drop 21 response))))
       else if field_type = 3 then
         (if substr 0 11 (substr 21 32 response) = ''7f ff ff ff''
          then Some (Inr (Some (field_nr, Absent, drop 36 response)))
          else (case int_pair (substr 21 32 response) of
                  Inl e \<Rightarrow> Some (Inl e)
                | Inr field_data \<Rightarrow> Some (Inr (Some (field_nr, field_data, drop 36 response)))))
       else if field_type = 4 then
         (case scan_text [] (drop 21 response) of
            None \<Rightarrow> None
          | Some (word, rest) \<Rightarrow>
              (case HexToByte word of
                 Inl e \<Rightarrow> Some (Inl e)
               | Inr w \<Rightarrow> Some (Inr (Some (field_nr, Text w, drop 6 rest)))))
       else Some (Inr None)))"

section \<open>The frame decoder: parseResponse\<close>

text \<open>
  The loop of lines 114-116. Unpacking the \<^verbatim>\<open>None\<close> that \<^verbatim>\<open>getNextField\<close> returns for an
  unknown field type into three names raises \<^verbatim>\<open>TypeError\<close>.
\<close>

type_synonym element = "(int \<times> field_data) list"

partial_function (option) parse_loop :: "element \<Rightarrow> string \<Rightarrow> (error + element) option" where
  "parse_loop dict response =
     (if length response > 6 then
        (case getNextField response of
           None \<Rightarrow> None
         | Some (Inl e) \<Rightarrow> Some (Inl e)
         | Some (Inr None) \<Rightarrow> Some (Inl TypeError)
         | Some (Inr (Some (field_nr, field_data, rest))) \<Rightarrow>
             parse_loop (AList.update field_nr field_data dict) rest)
      else Some (Inr dict))"

declare parse_loop.simps [code]

definition parseResponse :: "string \<Rightarrow> (error + element) option" where
  "parseResponse response = parse_loop [] (drop 42 response)"

text \<open>
  Notions used to state properties of the codec: the value of a string of hex digits,
  the first \<open>k\<close> two-character groups of a text payload (one every three characters),
  the sequence of fields that the loop of \<^verbatim>\<open>parseResponse\<close> decodes from a buffer, and
  the dict obtained by storing a sequence of fields in order.
\<close>

definition hex_value :: "string \<Rightarrow> int" where
  "hex_value s = foldl (\<lambda>acc c. 16 * acc + int (the (digit_val c))) 0 s"

definition text_groups :: "nat \<Rightarrow> string \<Rightarrow> string list" where
  "text_groups k s = map (\<lambda>i. substr 0 2 (drop (3 * i) s)) [0..<k]"

inductive decodes_to :: "string \<Rightarrow> (int \<times> field_data) list \<Rightarrow> bool" where
  stop: "length r \<le> 6 \<Longrightarrow> decodes_to r []"
| step: "6 < length r \<Longrightarrow> getNextField r = Some (Inr (Some (nr, v, r'))) \<Longrightarrow>
         decodes_to r' fs \<Longrightarrow> decodes_to r ((nr, v) # fs)"

definition collect :: "element \<Rightarrow> (int \<times> field_data) list \<Rightarrow> element" where
  "collect d fs = foldl (\<lambda>d (nr, v). AList.update nr v d) d fs"

section \<open>Hex formatting and the checksum wrapper\<close>

definition hexchar :: "nat \<Rightarrow> char" where
  "hexchar n = ''0123456789abcdef'' ! (n mod 16)"

function hex_digits :: "nat \<Rightarrow> string" where
  "hex_digits n = (if n < 16 then [hexchar n] else hex_digits (n div 16) @ [hexchar n])"
  by pat_completeness auto
termination
  by (relation "measure id") auto

declare hex_digits.simps [simp del]

text \<open>
  \<^verbatim>\<open>"%02x" % x\<close> and \<^verbatim>\<open>format(x, '02x')\<close>: lowercase hex, zero-padded to width 2; the
  sign of a negative number counts for the width.
\<close>

definition format_02x :: "int \<Rightarrow> string" where
  "format_02x x =
     (if x < 0 then CHR ''-'' # hex_digits (nat (- x))
      else (let d = hex_digits (nat x) in if length d < 2 then CHR ''0'' # d else d))"

definition hexdump :: "int \<Rightarrow> string" where
  "hexdump b =
     (let hex = format_02x b;
          hex = (if length hex = 3 then ''0'' @ hex else hex);
          hex = (if length hex = 2 then ''00'' @ hex else hex)
      in substr 0 2 hex @ '' '' @ substr 2 4 hex)"

text \<open>\<^verbatim>\<open>s.split()\<close>: the maximal runs of non-whitespace characters.\<close>

fun split_acc :: "string \<Rightarrow> string \<Rightarrow> string list" where
  "split_acc cur [] = (if cur = [] then [] else [cur])"
| "split_acc cur (c # cs) =
     (if is_space c then (if cur = [] then split_acc [] cs else cur # split_acc [] cs)
      else split_acc (cur @ [c]) cs)"

definition py_split :: "string \<Rightarrow> string list" where
  "py_split s = split_acc [] s"

text \<open>A list comprehension whose body may raise: the first exception ends it.\<close>

fun map_raise :: "('a \<Rightarrow> error + 'b) \<Rightarrow> 'a list \<Rightarrow> error + 'b list" where
  "map_raise f [] = Inr []"
| "map_raise f (x # xs) =
     (case f x of Inl e \<Rightarrow> Inl e | Inr y \<Rightarrow>
      (case map_raise f xs of Inl e \<Rightarrow> Inl e | Inr ys \<Rightarrow> Inr (y # ys)))"

text \<open>
  \<^verbatim>\<open>add_crc\<close> (lines 119-123). \<open>crc_input\<close> is the list handed to
  \<^verbatim>\<open>brainsmoke.calc_rev_crc16\<close>, that is \<^verbatim>\<open>message_int[0:-1]\<close> with \<^verbatim>\<open>message_int\<close> built from
  \<^verbatim>\<open>fields[1:]\<close>. The module \<^verbatim>\<open>brainsmoke\<close> is imported, not part of the two scripts, so
  its function is the parameter \<open>calc_rev_crc16\<close>.
\<close>

definition crc_input :: "string \<Rightarrow> error + int list" where
  "crc_input message =
     (let fields = py_split message in
      case map_raise int16 (drop 1 fields) of
        Inl e \<Rightarrow> Inl e
      | Inr message_int \<Rightarrow> Inr (butlast message_int))"

definition add_crc :: "(int list \<Rightarrow> int) \<Rightarrow> string \<Rightarrow> error + string" where
  "add_crc calc_rev_crc16 message =
     (case crc_input message of
        Inl e \<Rightarrow> Inl e
      | Inr inp \<Rightarrow> Inr (message @ '' '' @ hexdump (calc_rev_crc16 inp)))"

text \<open>
  A command as the scripts write it: the bytes as two hex digits each, joined by single
  spaces (\<^verbatim>\<open>' '.join\<close>).
\<close>

fun join_sp :: "string list \<Rightarrow> string" where
  "join_sp [] = []"
| "join_sp [x] = x"
| "join_sp (x # y # ys) = x @ '' '' @ join_sp (y # ys)"

type_synonym byte = "8 word"

definition command :: "byte list \<Rightarrow> string" where
  "command bs = join_sp (map (\<lambda>b. format_02x (uint b)) bs)"

section \<open>The datagram gate of the main loop\<close>

definition BinToHex :: "byte list \<Rightarrow> string" where
  "BinToHex message = concat (map (\<lambda>x. format_02x (uint x) @ '' '') message)"

text \<open>
  One pass of the \<^verbatim>\<open>while True\<close> loop of \<^verbatim>\<open>pico-json.py\<close> for a received datagram
  (lines 322-424). The result \<open>Some (Inr None)\<close> is a pass that prints nothing,
  \<open>Some (Inr (Some out))\<close> a pass that prints the snapshot \<open>out\<close>, \<open>Some (Inl e)\<close> an
  exception that leaves the loop (only \<^verbatim>\<open>recvfrom\<close> is inside a \<^verbatim>\<open>try\<close>). The per-sensor
  dispatch and the JSON output of lines 329-420, which run on the decoded \<^verbatim>\<open>element\<close>, are
  the parameter \<open>snapshot\<close>. \<^verbatim>\<open>response[18]\<close> is inside the string, which has three
  characters for each of the more than 100 bytes.
\<close>

definition loop_body ::
  "(element \<Rightarrow> error + 'out) \<Rightarrow> byte list \<Rightarrow> (error + 'out option) option" where
  "loop_body snapshot message =
     (if length message > 100 \<and> length message < 1000 then
        (let response = BinToHex message in
         if response ! 18 = CHR ''b'' then
           (case parseResponse response of
              None \<Rightarrow> None
            | Some (Inl e) \<Rightarrow> Some (Inl e)
            | Some (Inr element) \<Rightarrow>
                (case snapshot element of
                   Inl e \<Rightarrow> Some (Inl e)
                 | Inr out \<Rightarrow> Some (Inr (Some out))))
         else Some (Inr None))
      else Some (Inr None))"

text \<open>
  A datagram of 105 bytes for the examples: a header of 14 bytes whose byte 6 is \<open>x\<close>,
  then 13 fields of type 1, each with the number 2 and the payload \<^verbatim>\<open>00 00 00 07\<close>.
\<close>

definition example_datagram :: "byte \<Rightarrow> byte list" where
  "example_datagram x =
     [0, 0, 0, 0, 0, 0xff, x, 4, 0x8c, 0x55, 0x4b, 0, 0x16, 0xff]
     @ concat (replicate 13 [2, 1, 0, 0, 0, 7, 0xff])"

section \<open>The sensor registry: createSensorList\<close>

text \<open>
  The two scripts differ in a few places; \<open>variant\<close> says which one is meant. A value
  read with \<^verbatim>\<open>x[0]\<close> or \<^verbatim>\<open>x[1]\<close> from a field value is an int (from \<^verbatim>\<open>[a, b]\<close>) or a
  one-character string (from a text value).
\<close>

datatype variant = PicoJson | PicoRaw

datatype pyval = PInt int | PStr string

definition bindE :: "error + 'a \<Rightarrow> ('a \<Rightarrow> error + 'b) \<Rightarrow> error + 'b" where
  "bindE m f = (case m of Inl e \<Rightarrow> Inl e | Inr x \<Rightarrow> f x)"

text \<open>\<^verbatim>\<open>d[k]\<close> on a dict raises \<^verbatim>\<open>KeyError\<close> for a missing key.\<close>

definition getitem :: "('k \<times> 'v) list \<Rightarrow> 'k \<Rightarrow> error + 'v" where
  "getitem d k = (case map_of d k of None \<Rightarrow> Inl KeyError | Some v \<Rightarrow> Inr v)"

fun index0 :: "field_data \<Rightarrow> error + pyval" where
  "index0 (IntPair a b) = Inr (PInt a)"
| "index0 (Text s) = (if 0 < length s then Inr (PStr [s ! 0]) else Inl IndexError)"

fun index1 :: "field_data \<Rightarrow> error + pyval" where
  "index1 (IntPair a b) = Inr (PInt b)"
| "index1 (Text s) = (if 1 < length s then Inr (PStr [s ! 1]) else Inl IndexError)"

text \<open>
  \<^verbatim>\<open>xs[i]\<close> on a list: a negative index counts from the end, an index out of range
  raises \<^verbatim>\<open>IndexError\<close>, a string index \<^verbatim>\<open>TypeError\<close>.
\<close>

definition list_index :: "'a list \<Rightarrow> pyval \<Rightarrow> error + 'a" where
  "list_index xs i =
     (case i of
        PStr s \<Rightarrow> Inl TypeError
      | PInt n \<Rightarrow>
          (let j = (if n < 0 then int (length xs) + n else n)
           in if 0 \<le> j \<and> j < int (length xs) then Inr (xs ! nat j) else Inl IndexError))"

text \<open>
  \<^verbatim>\<open>x / d\<close> for a non-zero numeric constant \<open>d\<close>. Python computes the quotient as a
  binary64 float; the model computes it in \<^typ>\<open>real\<close>, without rounding. Dividing a
  string raises \<^verbatim>\<open>TypeError\<close>.
\<close>

definition truediv :: "pyval \<Rightarrow> real \<Rightarrow> error + real" where
  "truediv x d = (case x of PInt n \<Rightarrow> Inr (real_of_int n / d) | PStr s \<Rightarrow> Inl TypeError)"

text \<open>\<^verbatim>\<open>x * 36 * 12\<close>: a product of ints, or a string repeated.\<close>

definition times_36_12 :: "pyval \<Rightarrow> pyval" where
  "times_36_12 x =
     (case x of
        PInt n \<Rightarrow> PInt (n * 36 * 12)
      | PStr s \<Rightarrow> PStr (concat (replicate 12 (concat (replicate 36 s)))))"

text \<open>
  A sensor descriptor is a dict with the keys below; a key that is not set is \<^const>\<open>None\<close>.
  \<^verbatim>\<open>'type'\<close> and \<^verbatim>\<open>'pos'\<close> are always set. \<^verbatim>\<open>'name'\<close> holds a whole field value.
\<close>

record sensor =
  name :: "field_data option"
  capacity :: "real option"
  fluid_type :: "string option"
  fluid :: "string option"
  capacity_nominal :: "pyval option"
  inclinometer_type :: "pyval option"
  type :: pyval
  pos :: int

definition new_sensor :: "pyval \<Rightarrow> sensor" where
  "new_sensor t =
     \<lparr>name = None, capacity = None, fluid_type = None, fluid = None,
      capacity_nominal = None, inclinometer_type = None, type = t, pos = 0\<rparr>"

definition named :: "element \<Rightarrow> string \<Rightarrow> int \<Rightarrow> error + sensor \<times> int" where
  "named entry t elementSize =
     bindE (getitem entry 3) (\<lambda>n. Inr ((new_sensor (PStr t))\<lparr>name := Some n\<rparr>, elementSize))"

text \<open>
  The body of the loop of \<^verbatim>\<open>createSensorList\<close> after \<^verbatim>\<open>id\<close> is read (lines 187-226 of
  \<^verbatim>\<open>pico-json.py\<close>, 187-230 of \<^verbatim>\<open>pico-raw.py\<close>): the descriptor without its \<^verbatim>\<open>'pos'\<close>,
  and \<^verbatim>\<open>elementSize\<close>. The source's \<^verbatim>\<open>if\<close> statements are exclusive, since a matching one
  rebinds \<^verbatim>\<open>type\<close> to a string.
\<close>

definition describe :: "variant \<Rightarrow> element \<Rightarrow> error + sensor \<times> int" where
  "describe var entry =
     bindE (bindE (getitem entry 1) index1) (\<lambda>type.
       if type = PInt 0 then Inr (new_sensor (PStr ''null''), 0)
       else if type = PInt 1 then
         bindE (getitem entry 3) (\<lambda>n.
           Inr ((new_sensor (PStr ''volt''))\<lparr>name := Some n\<rparr>,
                if n = Text ''PICO INTERNAL'' then 6 else 1))
       else if type = PInt 2 then named entry ''current'' 2
       else if type = PInt 3 then named entry ''thermometer'' 1
       else if type = PInt 5 then named entry ''barometer'' 2
       else if type = PInt 6 then named entry ''ohm'' 1
       else if type = PInt 8 then
         bindE (getitem entry 3) (\<lambda>n.
         bindE (bindE (bindE (getitem entry 7) index1) (\<lambda>x. truediv x 10)) (\<lambda>c.
         bindE (bindE (getitem entry 6) index1) (\<lambda>i.
         bindE (list_index [''Unknown'', ''fresh water'', ''diesel'', ''blackwater''] i) (\<lambda>ft.
         bindE (bindE (bindE (getitem entry 6) index1)
                  (list_index [''Unknown'', ''freshWater'', ''fuel'', ''wasteWater''])) (\<lambda>f.
           Inr ((new_sensor (PStr ''tank''))
                  \<lparr>name := Some n, capacity := Some c, fluid_type := Some ft, fluid := Some f\<rparr>,
                1))))))
       else if type = PInt 9 then
         bindE (getitem entry 3) (\<lambda>n.
         bindE (bindE (getitem entry 5) index1) (\<lambda>x.
           Inr ((new_sensor (PStr ''battery''))
                  \<lparr>name := Some n, capacity_nominal := Some (times_36_12 x)\<rparr>,
                5)))
       else if type = PInt 13 then
         (case var of
            PicoJson \<Rightarrow> Inr (new_sensor (PStr ''inclinometer''), 1)
          | PicoRaw \<Rightarrow>
              bindE (bindE (getitem entry 3) index1) (\<lambda>it.
                Inr ((new_sensor (PStr ''inclinometer''))
                       \<lparr>inclinometer_type := Some it,
                        name := (if it = PInt 1 then Some (Text ''pitch'')
                                 else if it = PInt 2 then Some (Text ''roll'') else None)\<rparr>,
                     1)))
       else Inr (new_sensor type, 1))"

text \<open>
  The loop itself. \<^verbatim>\<open>config.keys()\<close> visits the positions in insertion order and
  \<^verbatim>\<open>config[entry]\<close> is the record stored there, so \<open>config\<close> is the list of records in
  that order. \<^verbatim>\<open>sensorList[id] = {}\<close> followed by the updates of that dict is one update
  of the association list.
\<close>

type_synonym sensorList = "(pyval \<times> sensor) list"

fun sensor_loop :: "variant \<Rightarrow> element list \<Rightarrow> sensorList \<Rightarrow> int \<Rightarrow> error + sensorList" where
  "sensor_loop var [] sensorList elementPos = Inr sensorList"
| "sensor_loop var (entry # rest) sensorList elementPos =
     bindE (bindE (getitem entry 0) index1) (\<lambda>id.
     bindE (describe var entry) (\<lambda>(d, elementSize).
       sensor_loop var rest (AList.update id (d\<lparr>pos := elementPos\<rparr>) sensorList)
         (elementPos + elementSize)))"

definition createSensorList :: "variant \<Rightarrow> element list \<Rightarrow> error + sensorList" where
  "createSensorList var config = sensor_loop var config [] 0"

text \<open>
  What one record contributes: its sensor id, its descriptor without \<^verbatim>\<open>'pos'\<close>, and its
  element size.
\<close>

definition entry_info :: "variant \<Rightarrow> element \<Rightarrow> error + pyval \<times> sensor \<times> int" where
  "entry_info var entry =
     bindE (bindE (getitem entry 0) index1) (\<lambda>id.
     bindE (describe var entry) (\<lambda>(d, elementSize). Inr (id, d, elementSize)))"

section \<open>Decoding telemetry: readTank, readBatt, toTemperature\<close>

text \<open>
  \<^verbatim>\<open>readTank\<close> (lines 259-266) reads the globals \<^verbatim>\<open>element\<close> and \<^verbatim>\<open>sensorList\<close>, here
  arguments, and stores three values in \<^verbatim>\<open>sensorListTmp[sensorId]\<close>, here the result.
\<close>

record tank_values =
  currentLevel :: real
  remainingCapacity :: real
  percentage :: real

definition readTank :: "element \<Rightarrow> sensorList \<Rightarrow> pyval \<Rightarrow> int \<Rightarrow> error + tank_values" where
  "readTank element sensorList sensorId elementId =
     bindE (bindE (bindE (getitem element elementId) index0) (\<lambda>x. truediv x 1000)) (\<lambda>cl.
     bindE (getitem sensorList sensorId) (\<lambda>descriptor.
       let cap = (case capacity descriptor of None \<Rightarrow> 0 | Some c \<Rightarrow> c) in
       bindE (bindE (bindE (getitem element elementId) index1) (\<lambda>x. truediv x 10)) (\<lambda>rc.
         Inr \<lparr>currentLevel = cl, remainingCapacity = rc,
              percentage = (if cap \<noteq> 0 then (rc / cap) * 100 else 0)\<rparr>)))"





text \<open>
  The registry after the descriptors of the records \<open>infos\<close> (id, descriptor, element
  size) are stored in order, the first at the offset \<open>p\<close>: what the loop of
  \<^verbatim>\<open>createSensorList\<close> computes when no record raises.
\<close>

fun store_all :: "(pyval \<times> sensor \<times> int) list \<Rightarrow> int \<Rightarrow> sensorList \<Rightarrow> sensorList" where
  "store_all [] p sl = sl"
| "store_all ((i, d, elementSize) # infos) p sl =
     store_all infos (p + elementSize) (AList.update i (d\<lparr>pos := p\<rparr>) sl)"

text \<open>
  The registry for records with pairwise distinct ids: one entry for each record, in
  order, the offsets accumulating from \<open>p\<close>.
\<close>

fun layout :: "(pyval \<times> sensor \<times> int) list \<Rightarrow> int \<Rightarrow> sensorList" where
  "layout [] p = []"
| "layout ((i, d, elementSize) # infos) p = (i, d\<lparr>pos := p\<rparr>) # layout infos (p + elementSize)"

section \<open>Properties of the codec\<close>

subsection \<open>Parsing hex digits\<close>

lemma digit_val_not_special:
  assumes "digit_val c = Some d"
  shows "\<not> is_space c" "c \<noteq> CHR ''-''" "c \<noteq> CHR ''+''" "c \<noteq> CHR ''_''"
    "c \<noteq> CHR ''x''" "c \<noteq> CHR ''X''" "c \<noteq> CHR '' ''" "\<not> is_int_space c"
  using assms by (auto simp: digit_val_def is_space_def is_int_space_def Let_def split: if_splits)

lemma scan_digits_all:
  "\<forall>c\<in>set s. digit_val c \<noteq> None \<Longrightarrow>
   scan_digits us acc s =
     (if s = [] \<and> us then None
      else Some (foldl (\<lambda>acc c. 16 * acc + int (the (digit_val c))) acc s))"
proof (induction s arbitrary: us acc)
  case Nil
  then show ?case by simp
next
  case (Cons c s)
  then obtain d where d: "digit_val c = Some d" by auto
  from Cons.prems have rest: "\<forall>c\<in>set s. digit_val c \<noteq> None" by simp
  show ?case using d digit_val_not_special(4)[OF d] Cons.IH[OF rest] by simp
qed

lemma py_strip_digits:
  assumes "s \<noteq> []" "\<forall>c\<in>set s. digit_val c \<noteq> None"
  shows "py_strip s = s"
proof -
  from assms obtain c cs where s: "s = c # cs" by (cases s) auto
  with assms obtain d where "digit_val c = Some d" by auto
  then have h: "\<not> is_int_space c" by (rule digit_val_not_special)
  from assms have "rev s \<noteq> []" by simp
  then obtain c' cs' where r: "rev s = c' # cs'" by (cases "rev s") auto
  then have "c' \<in> set s" by (metis list.set_intros(1) set_rev)
  with assms obtain d' where "digit_val c' = Some d'" by auto
  then have h': "\<not> is_int_space c'" by (rule digit_val_not_special)
  have "dropWhile is_int_space s = s" using s h by simp
  moreover have "dropWhile is_int_space (rev s) = rev s" using r h' by simp
  ultimately show ?thesis by (simp add: py_strip_def)
qed

lemma int16_digits:
  assumes "s \<noteq> []" "\<forall>c\<in>set s. digit_val c \<noteq> None"
  shows "int16 s = Inr (hex_value s)"
proof -
  from assms obtain c cs where s: "s = c # cs" by (cases s) auto
  with assms obtain d where d: "digit_val c = Some d" by auto
  note sp = digit_val_not_special[OF d]
  have nx: "take 2 s \<noteq> ''0x''" "take 2 s \<noteq> ''0X''"
  proof -
    { fix y assume "take 2 s = [CHR ''0'', y]"
      then have "y \<in> set s" by (metis in_set_takeD list.set_intros(1) list.set_intros(2))
      with assms obtain e where "digit_val y = Some e" by auto
      then have "y \<noteq> CHR ''x'' \<and> y \<noteq> CHR ''X''" using digit_val_not_special by blast }
    then show "take 2 s \<noteq> ''0x''" "take 2 s \<noteq> ''0X''" by blast+
  qed
  have st: "py_strip s = s" by (rule py_strip_digits[OF assms])
  have t1: "take 1 s \<noteq> ''-''" "take 1 s \<noteq> ''+''" "take 1 s \<noteq> ''_''" "s \<noteq> []"
    using sp s by simp_all
  have sc: "scan_digits False 0 s = Some (hex_value s)"
    using scan_digits_all[OF assms(2), of False 0] by (simp add: hex_value_def)
  show ?thesis
    using t1 nx by (simp add: int16_def st Let_def sc)
qed


subsection \<open>The text loop\<close>

lemma text_groups_Suc:
  "text_groups (Suc k) s = substr 0 2 s # text_groups k (drop 3 s)"
proof -
  have "[0..<Suc k] = 0 # map Suc [0..<k]"
    by (simp add: upt_conv_Cons map_Suc_upt del: upt_Suc)
  then show ?thesis
    by (simp add: text_groups_def comp_def add.commute del: upt_Suc)
qed

lemma scan_text_terminator:
  assumes "substr 0 2 (drop (3 * k) s) = ''00''"
      and "\<forall>i<k. substr 0 2 (drop (3 * i) s) \<noteq> ''00''"
  shows "scan_text w s = Some (w @ concat (text_groups k s), drop (3 * k) s)"
  using assms
proof (induction k arbitrary: w s)
  case 0
  then show ?case by (subst scan_text.simps) (simp add: text_groups_def)
next
  case (Suc k)
  from Suc.prems(2) have g0: "substr 0 2 s \<noteq> ''00''" by force
  have t: "substr 0 2 (drop (3 * k) (drop 3 s)) = ''00''"
    using Suc.prems(1) by (simp add: add.commute)
  have n: "\<forall>i<k. substr 0 2 (drop (3 * i) (drop 3 s)) \<noteq> ''00''"
  proof (intro allI impI)
    fix i assume "i < k"
    then have "substr 0 2 (drop (3 * Suc i) s) \<noteq> ''00''" using Suc.prems(2) by blast
    then show "substr 0 2 (drop (3 * i) (drop 3 s)) \<noteq> ''00''" by (simp add: add.commute)
  qed
  have "scan_text w s = scan_text (w @ substr 0 2 s) (drop 3 s)"
    using g0 by (subst scan_text.simps) simp
  also have "\<dots> = Some ((w @ substr 0 2 s) @ concat (text_groups k (drop 3 s)), drop (3 * k) (drop 3 s))"
    by (rule Suc.IH[OF t n])
  finally show ?case by (simp add: text_groups_Suc add.commute)
qed

text \<open>
  Conversely the loop returns only if there is a \<^verbatim>\<open>00\<close> group: on a text without one
  (a frame cut short, say) it runs forever.
\<close>

lemma scan_text_returns_terminator:
  assumes "scan_text w s = Some r"
  shows "\<exists>k. substr 0 2 (drop (3 * k) s) = ''00''"
proof (rule scan_text.raw_induct
    [where P = "\<lambda>w s r. \<exists>k. substr 0 2 (drop (3 * k) s) = ''00''", OF _ assms])
  fix scan :: "string \<Rightarrow> string \<Rightarrow> (string \<times> string) option" and w s r
  assume IH: "\<And>w s r. scan w s = Some r \<Longrightarrow> \<exists>k. substr 0 2 (drop (3 * k) s) = ''00''"
    and eq: "(if substr 0 2 s \<noteq> ''00'' then scan (w @ substr 0 2 s) (drop 3 s)
              else Some (w, s)) = Some r"
  show "\<exists>k. substr 0 2 (drop (3 * k) s) = ''00''"
  proof (cases "substr 0 2 s = ''00''")
    case True
    then show ?thesis by (intro exI[of _ 0]) simp
  next
    case False
    with eq have "scan (w @ substr 0 2 s) (drop 3 s) = Some r" by simp
    from IH[OF this] obtain k where "substr 0 2 (drop (3 * k) (drop 3 s)) = ''00''" ..
    then show ?thesis by (intro exI[of _ "Suc k"]) (simp add: add.commute)
  qed
qed

lemma scan_text_no_terminator:
  "\<forall>k. substr 0 2 (drop (3 * k) s) \<noteq> ''00'' \<Longrightarrow> scan_text w s = None"
  using scan_text_returns_terminator[of w s] by (cases "scan_text w s") auto

subsection \<open>Numeric payloads\<close>

lemma int_pair_groups:
  assumes "\<forall>c\<in>set [c1, c2, c3, c4, c5, c6, c7, c8]. digit_val c \<noteq> None"
  shows "int_pair [c1, c2, CHR '' '', c3, c4, CHR '' '', c5, c6, CHR '' '', c7, c8]
           = Inr (IntPair (hex_value [c1, c2, c3, c4]) (hex_value [c5, c6, c7, c8]))"
proof -
  have ns: "c \<noteq> CHR '' ''" if "c \<in> set [c1, c2, c3, c4, c5, c6, c7, c8]" for c
    using that assms digit_val_not_special(7) by blast
  have a: "remove_spaces (substr 0 5 [c1, c2, CHR '' '', c3, c4, CHR '' '', c5, c6, CHR '' '', c7, c8])
             = [c1, c2, c3, c4]"
    using ns by (simp add: remove_spaces_def substr_def)
  have b: "remove_spaces (substr 6 11 [c1, c2, CHR '' '', c3, c4, CHR '' '', c5, c6, CHR '' '', c7, c8])
             = [c5, c6, c7, c8]"
    using ns by (simp add: remove_spaces_def substr_def)
  have ia: "int16 [c1, c2, c3, c4] = Inr (hex_value [c1, c2, c3, c4])"
    using assms by (intro int16_digits) simp_all
  have ib: "int16 [c5, c6, c7, c8] = Inr (hex_value [c5, c6, c7, c8])"
    using assms by (intro int16_digits) simp_all
  show ?thesis unfolding int_pair_def a b ia ib by simp
qed

subsection \<open>The frame loop\<close>

lemma map_of_collect: "map_of (collect d fs) = map_of d ++ map_of (rev fs)"
proof (induction fs arbitrary: d)
  case Nil
  then show ?case by (simp add: collect_def)
next
  case (Cons f fs)
  obtain nr v where f: "f = (nr, v)" by (cases f)
  have "map_of (collect d (f # fs)) = map_of (collect (AList.update nr v d) fs)"
    by (simp add: collect_def f)
  also have "\<dots> = (map_of d)(nr \<mapsto> v) ++ map_of (rev fs)"
    by (simp add: Cons.IH update_conv' fun_upd_def)
  also have "\<dots> = map_of d ++ map_of (rev (f # fs))"
    by (simp add: f map_add_upd_left)
  finally show ?case .
qed

lemma parse_loop_decodes:
  "decodes_to r fs \<Longrightarrow> parse_loop d r = Some (Inr (collect d fs))"
proof (induction r fs arbitrary: d rule: decodes_to.induct)
  case (stop r)
  then show ?case by (subst parse_loop.simps) (simp add: collect_def)
next
  case (step r nr v r' fs)
  have "parse_loop d r = parse_loop (AList.update nr v d) r'"
    using step.hyps(1,2) by (subst parse_loop.simps) simp
  then show ?case by (simp add: step.IH collect_def)
qed

subsection \<open>Unknown field types\<close>

text \<open>
  C1. The claim: a field type code other than 1, 3 or 4 yields no value, parsing of the
  frame halts without a crash, and the mapping built from the fields decoded so far is
  kept. The code does yield no value (\<^verbatim>\<open>getNextField\<close> returns \<^verbatim>\<open>None\<close>), but
  \<^verbatim>\<open>parseResponse\<close> then unpacks that \<^verbatim>\<open>None\<close> and raises \<^verbatim>\<open>TypeError\<close>: for a response
  whose first field (number 0, type 1) decodes and whose second field has type code 2,
  the call raises instead of returning the mapping that holds field 0. In the main
  loop the exception is not caught: a datagram of 105 bytes that passes the gate and
  ends in a field of type 2 ends the loop with \<^verbatim>\<open>TypeError\<close>.
\<close>

theorem parseResponse_unknown_type_raises:
  "getNextField ''01 02 00 00 00 00 ff '' = Some (Inr None)
   \<and> parseResponse (''00 00 00 00 00 ff 41 04 8c 55 4b 00 16 ff ''
         @ ''00 01 00 01 00 02 ff '' @ ''01 02 00 00 00 00 ff '') = Some (Inl TypeError)
   \<and> loop_body Inr
         ([0, 0, 0, 0, 0, 0xff, 0xb0, 4, 0x8c, 0x55, 0x4b, 0, 0x16, 0xff]
          @ concat (replicate 12 [2, 1, 0, 0, 0, 7, 0xff]) @ [3, 2, 0, 0, 0, 0, 0xff])
       = Some (Inl TypeError)"
  by code_simp

subsection \<open>Type-3 fields\<close>

text \<open>
  C3, as amended. For a buffer whose field type is 3 and whose 11-character payload at
  offset 21 is four groups of two hex digits separated by single spaces,
  \<^verbatim>\<open>getNextField\<close> returns the empty value exactly when the payload is the sentinel
  \<^verbatim>\<open>7f ff ff ff\<close> (every bit set except the top bit of the first group); any other
  such payload is returned as the two integers of its halves; the rest of the buffer
  starts 36 characters on in both cases.
\<close>

theorem getNextField_type3:
  assumes nr: "int16 (substr 0 2 r) = Inr nr"
      and ty: "int16 (substr 3 5 r) = Inr 3"
      and payload: "substr 21 32 r = [c1, c2, CHR '' '', c3, c4, CHR '' '', c5, c6, CHR '' '', c7, c8]"
      and digits: "\<forall>c\<in>set [c1, c2, c3, c4, c5, c6, c7, c8]. digit_val c \<noteq> None"
  shows "getNextField r =
           Some (Inr (Some (nr,
             (if substr 21 32 r = ''7f ff ff ff'' then Absent
              else IntPair (hex_value [c1, c2, c3, c4]) (hex_value [c5, c6, c7, c8])),
             drop 36 r)))"
proof -
  have s: "substr 0 11 (substr 21 32 r) = substr 21 32 r"
    by (simp add: substr_def)
  have ip: "int_pair (substr 21 32 r)
              = Inr (IntPair (hex_value [c1, c2, c3, c4]) (hex_value [c5, c6, c7, c8]))"
    unfolding payload by (rule int_pair_groups[OF digits])
  show ?thesis
    unfolding getNextField_def nr ty s ip by simp
qed

text \<open>
  The theorem at a payload that is not the sentinel, and at the sentinel.
\<close>

theorem getNextField_type3_witness:
  "getNextField ''09 03 00 00 00 00 ff 00 01 86 a0 ff 12 34 '' =
     Some (Inr (Some (9, IntPair 1 34464, ''12 34 '')))
   \<and> getNextField ''09 03 00 00 00 00 ff 7f ff ff ff ff 12 34 '' =
     Some (Inr (Some (9, Absent, ''12 34 '')))"
proof -
  have d: "\<forall>c\<in>set ''000186a0''. digit_val c \<noteq> None" by code_simp
  have d': "\<forall>c\<in>set ''7fffffff''. digit_val c \<noteq> None" by code_simp
  have 1: "getNextField ''09 03 00 00 00 00 ff 00 01 86 a0 ff 12 34 '' =
     Some (Inr (Some (9, IntPair 1 34464, ''12 34 '')))"
    using getNextField_type3[of "''09 03 00 00 00 00 ff 00 01 86 a0 ff 12 34 ''" 9,
        OF _ _ _ d]
    by (simp add: substr_def hex_value_def digit_val_def int16_def py_strip_def is_int_space_def)
  have 2: "getNextField ''09 03 00 00 00 00 ff 7f ff ff ff ff 12 34 '' =
     Some (Inr (Some (9, Absent, ''12 34 '')))"
    using getNextField_type3[of "''09 03 00 00 00 00 ff 7f ff ff ff ff 12 34 ''" 9,
        OF _ _ _ d']
    by (simp add: substr_def int16_def py_strip_def is_int_space_def digit_val_def)
  show ?thesis using 1 2 by simp
qed

text \<open>
  C3 as stated takes the sentinel to be the payload in which all bits of both
  sub-ranges are set. That payload, \<^verbatim>\<open>ff ff ff ff\<close>, is not reported as the empty value:
  it is decoded as the pair 65535, 65535.
\<close>

theorem type3_all_bits_set_not_absent:
  "getNextField ''09 03 00 00 00 00 ff ff ff ff ff ff 12 34 '' =
     Some (Inr (Some (9, IntPair 65535 65535, ''12 34 '')))"
  by code_simp



subsection \<open>Text fields\<close>

text \<open>
  C4. Let a buffer have field type 4 and let \<open>p\<close> be its prefix that ends with the first
  \<^verbatim>\<open>00\<close> group of the text, the group number \<open>k\<close> counted from offset 21 in steps of
  three characters. Then \<^verbatim>\<open>getNextField\<close> returns for every continuation \<open>s\<close>: the
  string it decodes is \<^verbatim>\<open>HexToByte\<close> of exactly the \<open>k\<close> groups before that \<^verbatim>\<open>00\<close>
  (or \<^verbatim>\<open>HexToByte\<close> raises), it depends on \<open>p\<close> only, and the rest of the buffer is \<open>s\<close>
  without its first four characters, that is, it starts six characters after the
  start of the \<^verbatim>\<open>00\<close> group.
\<close>

theorem getNextField_text_terminates:
  assumes nr: "int16 (substr 0 2 p) = Inr nr"
      and ty: "int16 (substr 3 5 p) = Inr 4"
      and len: "length p = 21 + 3 * k + 2"
      and tm: "drop (21 + 3 * k) p = ''00''"
      and first: "\<forall>i<k. substr 0 2 (drop (21 + 3 * i) p) \<noteq> ''00''"
  shows "getNextField (p @ s) =
           Some (case HexToByte (concat (text_groups k (drop 21 p))) of
                   Inl e \<Rightarrow> Inl e
                 | Inr w \<Rightarrow> Inr (Some (nr, Text w, drop 4 s)))"
proof -
  let ?t = "drop 21 (p @ s)"
  have h1: "substr 0 2 (p @ s) = substr 0 2 p" "substr 3 5 (p @ s) = substr 3 5 p"
    using len by (simp_all add: substr_def)
  have dr: "drop (3 * k) ?t = ''00'' @ s"
    using len tm by (simp add: add.commute)
  have t: "substr 0 2 (drop (3 * k) ?t) = ''00''"
    unfolding dr by (simp add: substr_def)
  have grp: "substr 0 2 (drop (3 * i) ?t) = substr 0 2 (drop (3 * i) (drop 21 p))" if "i < k" for i
    using that len by (simp add: substr_def add.commute)
  have n: "\<forall>i<k. substr 0 2 (drop (3 * i) ?t) \<noteq> ''00''"
    using first grp by (simp add: add.commute)
  have tg: "text_groups k ?t = text_groups k (drop 21 p)"
    unfolding text_groups_def using grp by simp
  have sc: "scan_text [] ?t = Some (concat (text_groups k (drop 21 p)), ''00'' @ s)"
    using scan_text_terminator[OF t n, of "[]"] by (simp only: tg dr append_Nil)
  show ?thesis
    unfolding getNextField_def h1 nr ty sc
    by (simp split: sum.splits)
qed

text \<open>
  The theorem at the text \<^verbatim>\<open>41 42 00\<close>, followed by another field.
\<close>

theorem getNextField_text_terminates_witness:
  "getNextField (''05 04 00 00 00 00 ff 41 42 00'' @ '' ff 01 02 00 00 00 00 ff '') =
     Some (Inr (Some (5, Text ''AB'', ''01 02 00 00 00 00 ff '')))"
proof -
  have 1: "int16 (substr 0 2 ''05 04 00 00 00 00 ff 41 42 00'') = Inr 5" by code_simp
  have 2: "int16 (substr 3 5 ''05 04 00 00 00 00 ff 41 42 00'') = Inr 4" by code_simp
  have 3: "length ''05 04 00 00 00 00 ff 41 42 00'' = 21 + 3 * 2 + 2" by simp
  have 4: "drop (21 + 3 * 2) ''05 04 00 00 00 00 ff 41 42 00'' = ''00''" by simp
  have 5: "\<forall>i<2. substr 0 2 (drop (21 + 3 * i) ''05 04 00 00 00 00 ff 41 42 00'') \<noteq> ''00''"
    by (simp add: substr_def less_Suc_eq numeral_2_eq_2)
  have 6: "HexToByte (concat (text_groups 2 (drop 21 ''05 04 00 00 00 00 ff 41 42 00''))) = Inr ''AB''"
    by code_simp
  show ?thesis
    using getNextField_text_terminates[OF 1 2 3 4 5, of "'' ff 01 02 00 00 00 00 ff ''"]
    unfolding 6 by simp
qed



subsection \<open>Frames\<close>

text \<open>
  C7, as amended. \<^verbatim>\<open>parseResponse\<close> drops the first 42 characters and decodes fields
  as long as more than 6 characters remain, that is, until 6 or fewer remain. If the
  fields so decoded are \<open>fs\<close>, in order, the result is the dict that stores them in
  that order, and looking a field number up in it gives the value of the last field
  with that number.
\<close>

theorem parseResponse_collects:
  assumes "decodes_to (drop 42 response) fs"
  shows "parseResponse response = Some (Inr (collect [] fs))
         \<and> map_of (collect [] fs) = map_of (rev fs)"
  using parse_loop_decodes[OF assms, of "[]"] by (simp add: parseResponse_def map_of_collect)

text \<open>
  The theorem at a frame that holds field 2 twice and ends in two more bytes.
\<close>

theorem parseResponse_collects_witness:
  "parseResponse (''00 00 00 00 00 ff 41 04 8c 55 4b 00 16 ff ''
      @ ''02 01 00 00 00 07 ff '' @ ''02 01 00 00 00 09 ff '' @ ''12 34 '')
     = Some (Inr [(2, IntPair 0 9)])"
proof -
  have 1: "decodes_to ''12 34 '' []" by (rule stop) simp
  have 2: "decodes_to (''02 01 00 00 00 09 ff '' @ ''12 34 '') [(2, IntPair 0 9)]"
    by (rule step[OF _ _ 1]) code_simp+
  have 3: "decodes_to (drop 42 (''00 00 00 00 00 ff 41 04 8c 55 4b 00 16 ff ''
      @ ''02 01 00 00 00 07 ff '' @ ''02 01 00 00 00 09 ff '' @ ''12 34 ''))
      [(2, IntPair 0 7), (2, IntPair 0 9)]"
    by (rule step[OF _ _ 2]) code_simp+
  show ?thesis
    using parseResponse_collects[OF 3] by (simp add: collect_def)
qed

text \<open>
  C7 as stated lets the loop run until fewer than 6 characters remain. With exactly 6
  characters after the header the loop does not run: the result is the empty dict,
  where decoding those 6 characters as a field would raise.
\<close>

theorem parseResponse_stops_at_six:
  "parseResponse (''00 00 00 00 00 ff 41 04 8c 55 4b 00 16 ff '' @ ''02 01 '') = Some (Inr [])
   \<and> \<not> length (drop 42 (''00 00 00 00 00 ff 41 04 8c 55 4b 00 16 ff '' @ ''02 01 '')) < 6
   \<and> getNextField ''02 01 '' = Some (Inl ValueError)"
  by code_simp

section \<open>Commands and their checksum\<close>

subsection \<open>Two hex digits per byte\<close>

lemma hexchar_digit_all: "\<forall>m\<in>{0..<16}. digit_val (hexchar m) = Some m"
  by code_simp

lemma hexchar_digit: "digit_val (hexchar n) = Some (n mod 16)"
proof -
  have "n mod 16 \<in> {0..<16}" by simp
  then have "digit_val (hexchar (n mod 16)) = Some (n mod 16)"
    using hexchar_digit_all by blast
  then show ?thesis by (simp add: hexchar_def)
qed

lemma byte_less: "unat (b :: byte) < 256"
proof -
  have "unat b < 2 ^ LENGTH(8)" by (rule unsigned_less)
  then show ?thesis by simp
qed

lemma format_02x_byte:
  "format_02x (uint (b :: byte)) = [hexchar (unat b div 16), hexchar (unat b)]"
proof -
  have lt: "unat b < 256" by (rule byte_less)
  have n: "nat (uint b) = unat b" by simp
  show ?thesis
  proof (cases "unat b < 16")
    case True
    then show ?thesis
      by (simp add: format_02x_def n hex_digits.simps[of "unat b"] hexchar_def)
  next
    case False
    then have "unat b div 16 < 16" using lt by simp
    then show ?thesis using False
      by (simp add: format_02x_def n hex_digits.simps[of "unat b"] hex_digits.simps[of "unat b div 16"])
  qed
qed

lemma int16_format_02x: "int16 (format_02x (uint (b :: byte))) = Inr (uint b)"
proof -
  let ?s = "[hexchar (unat b div 16), hexchar (unat b)]"
  have lt: "unat b < 256" by (rule byte_less)
  have "int16 ?s = Inr (hex_value ?s)"
    by (rule int16_digits) (simp_all add: hexchar_digit)
  moreover have "hex_value ?s = 16 * int (unat b div 16) + int (unat b mod 16)"
  proof -
    have "unat b div 16 < 16" using lt by simp
    then show ?thesis by (simp add: hex_value_def hexchar_digit)
  qed
  moreover have "16 * int (unat b div 16) + int (unat b mod 16) = int (unat b)"
    by presburger
  moreover have "int (unat b) = uint b" by simp
  ultimately show ?thesis by (simp only: format_02x_byte)
qed


subsection \<open>Splitting a command\<close>

lemma split_acc_word:
  "\<forall>c\<in>set w. \<not> is_space c \<Longrightarrow> split_acc cur (w @ rest) = split_acc (cur @ w) rest"
  by (induction w arbitrary: cur) simp_all

lemma py_split_join:
  "\<forall>w\<in>set ws. w \<noteq> [] \<and> (\<forall>c\<in>set w. \<not> is_space c) \<Longrightarrow> py_split (join_sp ws) = ws"
proof (induction ws rule: join_sp.induct)
  case 1
  then show ?case by (simp add: py_split_def)
next
  case (2 x)
  then have "split_acc [] (x @ []) = split_acc ([] @ x) []"
    by (intro split_acc_word) simp
  then show ?case using 2 by (simp add: py_split_def)
next
  case (3 x y ys)
  then have x: "x \<noteq> []" "\<forall>c\<in>set x. \<not> is_space c" by simp_all
  have sp: "is_space CHR '' ''" by (simp add: is_space_def)
  have "split_acc [] (x @ CHR '' '' # join_sp (y # ys)) = split_acc ([] @ x) (CHR '' '' # join_sp (y # ys))"
    by (rule split_acc_word[OF x(2)])
  also have "\<dots> = x # split_acc [] (join_sp (y # ys))"
    using x(1) sp by simp
  also have "split_acc [] (join_sp (y # ys)) = y # ys"
    using 3 by (simp add: py_split_def)
  finally show ?case by (simp add: py_split_def)
qed

lemma format_02x_word:
  "format_02x (uint (b :: byte)) \<noteq> [] \<and> (\<forall>c\<in>set (format_02x (uint b)). \<not> is_space c)"
  using digit_val_not_special(1)[OF hexchar_digit] by (simp add: format_02x_byte)

lemma py_split_command: "py_split (command bs) = map (\<lambda>b. format_02x (uint b)) bs"
  unfolding command_def by (rule py_split_join) (use format_02x_word in auto)

lemma map_raise_int16: "map_raise int16 (map (\<lambda>b. format_02x (uint (b :: byte))) bs) = Inr (map uint bs)"
  by (induction bs) (simp_all add: int16_format_02x)

lemma crc_input_command: "crc_input (command bs) = Inr (map uint (butlast (drop 1 bs)))"
  by (simp add: crc_input_def py_split_command drop_map map_raise_int16 map_butlast)

subsection \<open>The bytes under the checksum\<close>

text \<open>
  C2, as amended. For every command, written as its bytes in two hex digits each and
  joined by single spaces, \<^verbatim>\<open>add_crc\<close> appends the checksum of the bytes after the
  first one and before the last one: neither the first byte nor the trailing
  placeholder byte is part of the input of the CRC.
\<close>

theorem add_crc_input:
  "add_crc calc_rev_crc16 (command bs) =
     Inr (command bs @ '' '' @ hexdump (calc_rev_crc16 (map uint (butlast (drop 1 bs)))))"
  by (simp add: add_crc_def crc_input_command)

text \<open>
  C2 as stated puts every byte but the last under the checksum. For the command that
  asks for the number of sensors the input of the CRC has 12 values, not the 13 values
  before the last byte: the leading \<^verbatim>\<open>00\<close> is left out; and of \<^verbatim>\<open>a1 02 03\<close> only
  the middle byte is used.
\<close>

theorem add_crc_skips_first_byte:
  "crc_input ''00 00 00 00 00 ff 02 04 8c 55 4b 00 03 ff''
     = Inr [0, 0, 0, 0, 255, 2, 4, 140, 85, 75, 0, 3]
   \<and> crc_input ''00 00 00 00 00 ff 02 04 8c 55 4b 00 03 ff''
     \<noteq> Inr [0, 0, 0, 0, 0, 255, 2, 4, 140, 85, 75, 0, 3]
   \<and> crc_input ''a1 02 03'' = Inr [2]"
  by code_simp

section \<open>Properties of the datagram gate\<close>

subsection \<open>The hex string of a datagram\<close>

lemma BinToHex_Cons:
  "BinToHex (b # m) = hexchar (unat b div 16) # hexchar (unat b) # CHR '' '' # BinToHex m"
  by (simp add: BinToHex_def format_02x_byte)

lemma BinToHex_nth:
  "k < length m \<Longrightarrow> BinToHex m ! (3 * k) = hexchar (unat (m ! k) div 16)"
proof (induction m arbitrary: k)
  case Nil
  then show ?case by simp
next
  case (Cons b m)
  show ?case
  proof (cases k)
    case 0
    then show ?thesis by (simp add: BinToHex_Cons)
  next
    case (Suc j)
    then have "j < length m" using Cons.prems by simp
    then have "BinToHex m ! (3 * j) = hexchar (unat (m ! j) div 16)" by (rule Cons.IH)
    moreover have "3 * k = Suc (Suc (Suc (3 * j)))" using Suc by simp
    ultimately show ?thesis using Suc by (simp add: BinToHex_Cons)
  qed
qed

lemma hexchar_b_all: "\<forall>m\<in>{0..<16}. (hexchar m = CHR ''b'') = (m = 11)"
  by code_simp

lemma hexchar_b: "n < 16 \<Longrightarrow> (hexchar n = CHR ''b'') = (n = 11)"
  using hexchar_b_all by simp

lemma marker_char:
  assumes "6 < length message"
  shows "(BinToHex message ! 18 = CHR ''b'') = (unat (message ! 6) div 16 = 11)"
proof -
  have "BinToHex message ! (3 * 6) = hexchar (unat (message ! 6) div 16)"
    by (rule BinToHex_nth[OF assms])
  moreover have "unat (message ! 6) div 16 < 16"
    using byte_less[of "message ! 6"] by simp
  ultimately show ?thesis by (simp add: hexchar_b)
qed

subsection \<open>Which datagrams are decoded\<close>

text \<open>
  C6, as amended. A pass of the main loop prints a snapshot only if the datagram has
  more than 100 and fewer than 1000 bytes and the first hex digit of its byte 6
  (character 18 of the hex string) is \<^verbatim>\<open>b\<close>, that is, the byte is one of
  \<^verbatim>\<open>b0\<close> to \<^verbatim>\<open>bf\<close>. Every other datagram ends the pass with no output and no
  exception.
\<close>

theorem loop_body_gate:
  "((\<exists>out. loop_body snapshot message = Some (Inr (Some out))) \<longrightarrow>
      100 < length message \<and> length message < 1000 \<and> unat (message ! 6) div 16 = 11)
   \<and> (\<not> (100 < length message \<and> length message < 1000 \<and> unat (message ! 6) div 16 = 11) \<longrightarrow>
      loop_body snapshot message = Some (Inr None))"
proof (cases "100 < length message \<and> length message < 1000")
  case True
  then have "6 < length message" by simp
  from marker_char[OF this] True show ?thesis
    by (auto simp: loop_body_def Let_def)
next
  case False
  then show ?thesis by (auto simp: loop_body_def)
qed

text \<open>
  The theorem at datagrams of 50 and of 100 bytes and at one with the byte \<^verbatim>\<open>a0\<close>,
  which are dropped, and at a datagram with the byte \<^verbatim>\<open>b0\<close>, which is decoded.
\<close>

theorem loop_body_gate_witness:
  "loop_body Inr (replicate 50 0) = Some (Inr None)
   \<and> loop_body Inr (replicate 100 0xb0) = Some (Inr None)
   \<and> loop_body Inr (example_datagram 0xa0) = Some (Inr None)
   \<and> 100 < length (example_datagram 0xb0) \<and> length (example_datagram 0xb0) < 1000
   \<and> unat (example_datagram 0xb0 ! 6) div 16 = 11"
proof -
  have 1: "loop_body Inr (replicate 50 0) = Some (Inr None)"
    using loop_body_gate[of Inr "replicate 50 0"] by simp
  have 2: "loop_body Inr (replicate 100 0xb0) = Some (Inr None)"
    using loop_body_gate[of Inr "replicate 100 0xb0"] by simp
  have 3: "loop_body Inr (example_datagram 0xa0) = Some (Inr None)"
    using loop_body_gate[of Inr "example_datagram 0xa0"] by (simp add: example_datagram_def)
  have "loop_body Inr (example_datagram 0xb0) = Some (Inr (Some [(2, IntPair 0 7)]))"
    by code_simp
  then have 4: "100 < length (example_datagram 0xb0) \<and> length (example_datagram 0xb0) < 1000
     \<and> unat (example_datagram 0xb0 ! 6) div 16 = 11"
    using loop_body_gate[of Inr "example_datagram 0xb0"] by blast
  show ?thesis using 1 2 3 4 by blast
qed

text \<open>
  C6 as stated asks byte 6 to equal one marker value. Two datagrams that differ in
  that byte, \<^verbatim>\<open>b0\<close> and \<^verbatim>\<open>b1\<close>, are both decoded.
\<close>

theorem marker_is_one_hex_digit:
  "loop_body Inr (example_datagram 0xb0) = Some (Inr (Some [(2, IntPair 0 7)]))
   \<and> loop_body Inr (example_datagram 0xb1) = Some (Inr (Some [(2, IntPair 0 7)]))
   \<and> example_datagram 0xb0 ! 6 \<noteq> example_datagram 0xb1 ! 6"
  by code_simp

section \<open>Properties of the sensor registry\<close>

subsection \<open>The loop stores the records in order\<close>

lemma bindE_simps [simp]: "bindE (Inr x) f = f x" "bindE (Inl e) f = Inl e"
  by (simp_all add: bindE_def)

lemma entry_info_Inr:
  assumes "entry_info var e = Inr (i, d, sz)"
  shows "bindE (getitem e 0) index1 = Inr i" "describe var e = Inr (d, sz)"
  using assms by (auto simp: entry_info_def bindE_def split: sum.splits)

lemma sensor_loop_store:
  "map (entry_info var) config = map Inr infos \<Longrightarrow>
   sensor_loop var config sl p = Inr (store_all infos p sl)"
proof (induction config arbitrary: infos sl p)
  case Nil
  then show ?case by simp
next
  case (Cons e config)
  then obtain x rest where infos: "infos = x # rest" and x: "entry_info var e = Inr x"
    and rest: "map (entry_info var) config = map Inr rest"
    by (cases infos) auto
  obtain i d sz where t: "x = (i, d, sz)" by (cases x)
  note h = entry_info_Inr[OF x[unfolded t]]
  show ?case
    using Cons.IH[OF rest] by (simp add: infos t h)
qed

lemma store_all_other:
  "i \<notin> fst ` set infos \<Longrightarrow> map_of (store_all infos p sl) i = map_of sl i"
  by (induction infos p sl rule: store_all.induct) (auto simp: update_conv')

lemma store_all_last:
  assumes "j < length infos"
      and "\<forall>k. j < k \<and> k < length infos \<longrightarrow> fst (infos ! k) \<noteq> fst (infos ! j)"
  shows "map_of (store_all infos p sl) (fst (infos ! j)) =
           Some ((fst (snd (infos ! j)))\<lparr>pos := p + sum_list (map (snd \<circ> snd) (take j infos))\<rparr>)"
  using assms
proof (induction infos p sl arbitrary: j rule: store_all.induct)
  case (1 p sl)
  then show ?case by simp
next
  case (2 i d sz infos p sl)
  show ?case
  proof (cases j)
    case 0
    have "i \<notin> fst ` set infos"
    proof
      assume "i \<in> fst ` set infos"
      then obtain k where k: "k < length infos" "fst (infos ! k) = i"
        by (metis (no_types, lifting) image_iff in_set_conv_nth)
      with 2(3)[rule_format, of "Suc k"] 0 show False by simp
    qed
    then show ?thesis using 0 by (simp add: store_all_other update_conv')
  next
    case (Suc j')
    have a: "j' < length infos" using 2(2) Suc by simp
    have b: "\<forall>k. j' < k \<and> k < length infos \<longrightarrow> fst (infos ! k) \<noteq> fst (infos ! j')"
    proof (intro allI impI)
      fix k assume "j' < k \<and> k < length infos"
      with 2(3)[rule_format, of "Suc k"] Suc show "fst (infos ! k) \<noteq> fst (infos ! j')" by simp
    qed
    show ?thesis using 2(1)[OF a b] Suc by (simp add: add.assoc)
  qed
qed

lemma store_all_distinct:
  "distinct (map fst sl) \<Longrightarrow> distinct (map fst (store_all infos p sl))"
  by (induction infos p sl rule: store_all.induct) (auto simp: distinct_update)

lemma store_all_keys:
  "fst ` set (store_all infos p sl) = fst ` set sl \<union> fst ` set infos"
  by (induction infos p sl rule: store_all.induct) (auto simp: dom_update)

subsection \<open>Element sizes\<close>

lemma index1_not_null: "index1 fd = Inr t \<Longrightarrow> t \<noteq> PStr ''null''"
  by (cases fd) (auto split: if_splits)

lemma describe_size:
  assumes "describe var e = Inr (d, sz)"
  shows "0 \<le> sz \<and> (sz = 0 \<longleftrightarrow> type d = PStr ''null'')"
proof -
  from assms obtain fd t where fd: "getitem e 1 = Inr fd" and t: "index1 fd = Inr t"
    by (auto simp: describe_def bindE_def split: sum.splits)
  note nn = index1_not_null[OF t]
  show ?thesis
    using assms nn
    by (auto simp: describe_def named_def new_sensor_def fd t bindE_def
             split: if_splits sum.splits variant.splits)
qed

lemma entry_info_size:
  assumes "entry_info var e = Inr (i, d, sz)"
  shows "0 \<le> sz \<and> (sz = 0 \<longleftrightarrow> type d = PStr ''null'')"
  using describe_size[OF entry_info_Inr(2)[OF assms]] .

lemma infos_sizes:
  assumes "map (entry_info var) config = map Inr infos" and "x \<in> set infos"
  shows "0 \<le> snd (snd x) \<and> (snd (snd x) = 0 \<longleftrightarrow> type (fst (snd x)) = PStr ''null'')"
proof -
  from assms(2) have "Inr x \<in> set (map (entry_info var) config)"
    unfolding assms(1) by simp
  then obtain e where "entry_info var e = Inr x" by auto
  then show ?thesis using entry_info_size[of var e "fst x" "fst (snd x)" "snd (snd x)"] by simp
qed


lemma update_new_key: "k \<notin> fst ` set al \<Longrightarrow> AList.update k v al = al @ [(k, v)]"
  by (induction al) auto

lemma store_all_layout:
  "distinct (map fst infos) \<Longrightarrow> fst ` set infos \<inter> fst ` set sl = {} \<Longrightarrow>
   store_all infos p sl = sl @ layout infos p"
proof (induction infos p sl rule: store_all.induct)
  case (1 p sl)
  then show ?case by simp
next
  case (2 i d sz infos p sl)
  have new: "i \<notin> fst ` set sl" using 2(3) by auto
  have d: "distinct (map fst infos)" using 2(2) by simp
  have "fst ` set infos \<inter> fst ` set (sl @ [(i, d\<lparr>pos := p\<rparr>)]) = {}"
    using 2(2,3) by auto
  then show ?case
    using 2(1)[OF d] by (simp add: update_new_key[OF new])
qed

lemma layout_keys: "map fst (layout infos p) = map fst infos"
  by (induction infos p rule: layout.induct) simp_all

lemma layout_nth:
  "j < length infos \<Longrightarrow>
   snd (layout infos p ! j) =
     (fst (snd (infos ! j)))\<lparr>pos := p + sum_list (map (snd \<circ> snd) (take j infos))\<rparr>"
proof (induction infos p arbitrary: j rule: layout.induct)
  case (1 p)
  then show ?case by simp
next
  case (2 i d sz infos p)
  then show ?case by (cases j) (simp_all add: add.assoc)
qed

lemma layout_lower:
  "\<forall>x\<in>set infos. 0 \<le> snd (snd x) \<Longrightarrow> y \<in> set (layout infos p) \<Longrightarrow> p \<le> pos (snd y)"
proof (induction infos p rule: layout.induct)
  case (1 p)
  then show ?case by simp
next
  case (2 i d sz infos p)
  then show ?case by fastforce
qed

lemma layout_sorted:
  "\<forall>x\<in>set infos. 0 \<le> snd (snd x) \<Longrightarrow> sorted (map (pos \<circ> snd) (layout infos p))"
proof (induction infos p rule: layout.induct)
  case (1 p)
  then show ?case by simp
next
  case (2 i d sz infos p)
  have "p \<le> pos (snd y)" if "y \<in> set (layout infos (p + sz))" for y
    using layout_lower[of infos y "p + sz"] 2(2) that by simp
  then show ?case using 2 by auto
qed

lemma layout_strict:
  "\<forall>x\<in>set infos. 0 \<le> snd (snd x) \<Longrightarrow> \<forall>x\<in>set (butlast infos). snd (snd x) \<noteq> 0 \<Longrightarrow>
   sorted_wrt (<) (map (pos \<circ> snd) (layout infos p))"
proof (induction infos p rule: layout.induct)
  case (1 p)
  then show ?case by simp
next
  case (2 i d sz infos p)
  show ?case
  proof (cases "infos = []")
    case True
    then show ?thesis by simp
  next
    case False
    then have sz: "0 < sz" using 2(2,3) by simp
    have b: "\<forall>x\<in>set (butlast infos). snd (snd x) \<noteq> 0" using 2(3) False by simp
    have "p < pos (snd y)" if "y \<in> set (layout infos (p + sz))" for y
      using layout_lower[of infos y "p + sz"] 2(2) that sz by simp
    then show ?thesis using 2(1)[OF _ b] 2(2) by auto
  qed
qed

subsection \<open>Byte offsets\<close>

text \<open>
  C8, as amended. For every sequence of raw config records that all decode and have
  pairwise distinct sensor ids, the registry lists the sensors in enumeration order,
  each descriptor's \<^verbatim>\<open>pos\<close> is the sum of the element sizes of all earlier records, and
  the sequence of offsets never decreases; it is strictly increasing when no record but
  the last is of the Null kind (element size 0).
\<close>

theorem createSensorList_layout:
  assumes dec: "map (entry_info var) config = map Inr infos"
      and dist: "distinct (map fst infos)"
  shows "\<exists>sl. createSensorList var config = Inr sl
           \<and> map fst sl = map fst infos
           \<and> (\<forall>j<length infos.
                 snd (sl ! j) =
                   (fst (snd (infos ! j)))\<lparr>pos := sum_list (map (snd \<circ> snd) (take j infos))\<rparr>)
           \<and> sorted (map (pos \<circ> snd) sl)
           \<and> ((\<forall>x\<in>set (butlast infos). type (fst (snd x)) \<noteq> PStr ''null'') \<longrightarrow>
                sorted_wrt (<) (map (pos \<circ> snd) sl))"
proof -
  have sl: "createSensorList var config = Inr (layout infos 0)"
    using sensor_loop_store[OF dec, of "[]" 0] store_all_layout[OF dist, of "[]" 0]
    by (simp add: createSensorList_def)
  have nonneg: "\<forall>x\<in>set infos. 0 \<le> snd (snd x)"
    using infos_sizes[OF dec] by blast
  have strict: "sorted_wrt (<) (map (pos \<circ> snd) (layout infos 0))"
    if "\<forall>x\<in>set (butlast infos). type (fst (snd x)) \<noteq> PStr ''null''"
  proof -
    have "\<forall>x\<in>set (butlast infos). snd (snd x) \<noteq> 0"
    proof
      fix x assume x: "x \<in> set (butlast infos)"
      then have m: "x \<in> set infos" by (rule in_set_butlastD)
      from that x have "type (fst (snd x)) \<noteq> PStr ''null''" by (rule bspec)
      with infos_sizes[OF dec m] show "snd (snd x) \<noteq> 0" by simp
    qed
    then show ?thesis by (rule layout_strict[OF nonneg])
  qed
  show ?thesis
  proof (intro exI[of _ "layout infos 0"] conjI allI impI)
    show "createSensorList var config = Inr (layout infos 0)" by (rule sl)
    show "map fst (layout infos 0) = map fst infos" by (rule layout_keys)
    show "snd (layout infos 0 ! j) =
            (fst (snd (infos ! j)))\<lparr>pos := sum_list (map (snd \<circ> snd) (take j infos))\<rparr>"
      if "j < length infos" for j
      using layout_nth[OF that, of 0] by simp
    show "sorted (map (pos \<circ> snd) (layout infos 0))" by (rule layout_sorted[OF nonneg])
    show "sorted_wrt (<) (map (pos \<circ> snd) (layout infos 0))"
      if "\<forall>x\<in>set (butlast infos). type (fst (snd x)) \<noteq> PStr ''null''"
      by (rule strict[OF that])
  qed
qed


text \<open>
  The theorem at the records of an internal volt sensor (6 elements), a current sensor
  (2 elements) and a Null sensor: the offsets are 0, 6 and 8.
\<close>

theorem createSensorList_layout_witness:
  "\<exists>sl. createSensorList PicoJson
           [[(0, IntPair 0 1), (1, IntPair 0 1), (3, Text ''PICO INTERNAL'')],
            [(0, IntPair 0 4), (1, IntPair 0 2), (3, Text ''SHUNT'')],
            [(0, IntPair 0 2), (1, IntPair 0 0)]] = Inr sl
     \<and> map fst sl = [PInt 1, PInt 4, PInt 2]
     \<and> pos (snd (sl ! 0)) = 0 \<and> pos (snd (sl ! 1)) = 6 \<and> pos (snd (sl ! 2)) = 8
     \<and> sorted_wrt (<) (map (pos \<circ> snd) sl)"
proof -
  let ?infos = "[(PInt 1, (new_sensor (PStr ''volt''))\<lparr>name := Some (Text ''PICO INTERNAL'')\<rparr>, 6),
                 (PInt 4, (new_sensor (PStr ''current''))\<lparr>name := Some (Text ''SHUNT'')\<rparr>, 2),
                 (PInt 2, new_sensor (PStr ''null''), 0 :: int)]"
  have infos: "map (entry_info PicoJson)
           [[(0, IntPair 0 1), (1, IntPair 0 1), (3, Text ''PICO INTERNAL'')],
            [(0, IntPair 0 4), (1, IntPair 0 2), (3, Text ''SHUNT'')],
            [(0, IntPair 0 2), (1, IntPair 0 0)]] = map Inr ?infos"
    by (simp add: entry_info_def describe_def named_def getitem_def)
  have dist: "distinct (map fst ?infos)" by simp
  from createSensorList_layout[OF infos dist] obtain sl where
    sl: "createSensorList PicoJson
           [[(0, IntPair 0 1), (1, IntPair 0 1), (3, Text ''PICO INTERNAL'')],
            [(0, IntPair 0 4), (1, IntPair 0 2), (3, Text ''SHUNT'')],
            [(0, IntPair 0 2), (1, IntPair 0 0)]] = Inr sl"
    and keys: "map fst sl = map fst ?infos"
    and nth: "\<forall>j<length ?infos. snd (sl ! j) =
                (fst (snd (?infos ! j)))\<lparr>pos := sum_list (map (snd \<circ> snd) (take j ?infos))\<rparr>"
    and strict: "(\<forall>x\<in>set (butlast ?infos). type (fst (snd x)) \<noteq> PStr ''null'') \<longrightarrow>
                  sorted_wrt (<) (map (pos \<circ> snd) sl)"
    by blast
  have 0: "pos (snd (sl ! 0)) = 0" using nth[rule_format, of 0] by simp
  have 1: "pos (snd (sl ! 1)) = 6" using nth[rule_format, of 1] by simp
  have 2: "pos (snd (sl ! 2)) = 8" using nth[rule_format, of 2] by (simp add: numeral_2_eq_2)
  have 3: "sorted_wrt (<) (map (pos \<circ> snd) sl)" using strict by (simp add: new_sensor_def)
  show ?thesis using sl keys 0 1 2 3 by simp
qed

text \<open>
  C8 as stated has the offsets strictly increasing for any sensor kinds, the Null kind
  included. A Null record followed by a thermometer gives both the offset 0. And when
  a sensor id occurs twice (records with ids 1, 2, 1) the registry, in its order, has
  the offsets 3 and 2.
\<close>

theorem offsets_not_strictly_increasing:
  "createSensorList PicoJson
     [[(0, IntPair 0 1), (1, IntPair 0 0)],
      [(0, IntPair 0 2), (1, IntPair 0 3), (3, Text ''CABIN'')]]
     = Inr [(PInt 1, (new_sensor (PStr ''null''))\<lparr>pos := 0\<rparr>),
            (PInt 2, (new_sensor (PStr ''thermometer''))\<lparr>name := Some (Text ''CABIN''), pos := 0\<rparr>)]
   \<and> createSensorList PicoJson
     [[(0, IntPair 0 1), (1, IntPair 0 2), (3, Text ''SHUNT'')],
      [(0, IntPair 0 2), (1, IntPair 0 3), (3, Text ''CABIN'')],
      [(0, IntPair 0 1), (1, IntPair 0 6), (3, Text ''R'')]]
     = Inr [(PInt 1, (new_sensor (PStr ''ohm''))\<lparr>name := Some (Text ''R''), pos := 3\<rparr>),
            (PInt 2, (new_sensor (PStr ''thermometer''))\<lparr>name := Some (Text ''CABIN''), pos := 2\<rparr>)]"
  by (simp add: createSensorList_def describe_def named_def getitem_def new_sensor_def)

subsection \<open>Records with the same sensor id\<close>

text \<open>
  C10. The registry has one entry for each sensor id. For a record that is the last
  one with its id, the entry of that id is the descriptor of this record, and its
  \<^verbatim>\<open>pos\<close> is the sum of the element sizes of all records before it, those with the
  same id included: an earlier record with the same id leaves no entry but still
  moves the offsets of the records after it. This holds for both scripts.
\<close>

theorem createSensorList_duplicate_id:
  assumes "map (entry_info var) config = map Inr infos"
      and "j < length infos"
      and "\<forall>k. j < k \<and> k < length infos \<longrightarrow> fst (infos ! k) \<noteq> fst (infos ! j)"
  shows "\<exists>sl. createSensorList var config = Inr sl
           \<and> distinct (map fst sl)
           \<and> fst ` set sl = fst ` set infos
           \<and> map_of sl (fst (infos ! j)) =
               Some ((fst (snd (infos ! j)))\<lparr>pos := sum_list (map (snd \<circ> snd) (take j infos))\<rparr>)"
  using sensor_loop_store[OF assms(1), of "[]" 0] store_all_last[OF assms(2,3), of 0 "[]"]
    store_all_distinct[of "[]" infos 0] store_all_keys[of infos 0 "[]"]
  by (simp add: createSensorList_def)


text \<open>
  The theorem at four records with the ids 1, 2, 1 and 5 in \<^verbatim>\<open>pico-raw.py\<close>: the entry
  of id 1 is the third record's, at the offset 3, and the last record is at the offset 4.
\<close>

theorem createSensorList_duplicate_id_witness:
  "\<exists>sl. createSensorList PicoRaw
           [[(0, IntPair 0 1), (1, IntPair 0 2), (3, Text ''SHUNT'')],
            [(0, IntPair 0 2), (1, IntPair 0 3), (3, Text ''CABIN'')],
            [(0, IntPair 0 1), (1, IntPair 0 6), (3, Text ''R'')],
            [(0, IntPair 0 5), (1, IntPair 0 13), (3, IntPair 0 1)]] = Inr sl
     \<and> distinct (map fst sl)
     \<and> fst ` set sl = {PInt 1, PInt 2, PInt 5}
     \<and> map_of sl (PInt 1) = Some ((new_sensor (PStr ''ohm''))\<lparr>name := Some (Text ''R''), pos := 3\<rparr>)
     \<and> map_of sl (PInt 5) =
           Some ((new_sensor (PStr ''inclinometer''))
                   \<lparr>inclinometer_type := Some (PInt 1), name := Some (Text ''pitch''), pos := 4\<rparr>)"
proof -
  let ?config = "[[(0, IntPair 0 1), (1, IntPair 0 2), (3, Text ''SHUNT'')],
            [(0, IntPair 0 2), (1, IntPair 0 3), (3, Text ''CABIN'')],
            [(0, IntPair 0 1), (1, IntPair 0 6), (3, Text ''R'')],
            [(0, IntPair 0 5), (1, IntPair 0 13), (3, IntPair 0 1)]] :: element list"
  let ?infos = "[(PInt 1, (new_sensor (PStr ''current''))\<lparr>name := Some (Text ''SHUNT'')\<rparr>, 2),
                 (PInt 2, (new_sensor (PStr ''thermometer''))\<lparr>name := Some (Text ''CABIN'')\<rparr>, 1),
                 (PInt 1, (new_sensor (PStr ''ohm''))\<lparr>name := Some (Text ''R'')\<rparr>, 1),
                 (PInt 5, (new_sensor (PStr ''inclinometer''))
                   \<lparr>inclinometer_type := Some (PInt 1), name := Some (Text ''pitch'')\<rparr>, 1 :: int)]"
  have infos: "map (entry_info PicoRaw) ?config = map Inr ?infos"
    by (simp add: entry_info_def describe_def named_def getitem_def)
  have l2: "\<forall>k. 2 < k \<and> k < length ?infos \<longrightarrow> fst (?infos ! k) \<noteq> fst (?infos ! 2)"
    by (simp add: nth_Cons split: nat.splits)
  have l3: "\<forall>k. 3 < k \<and> k < length ?infos \<longrightarrow> fst (?infos ! k) \<noteq> fst (?infos ! 3)"
    by simp
  from createSensorList_duplicate_id[OF infos _ l2] obtain sl where
    sl: "createSensorList PicoRaw ?config = Inr sl"
    and d: "distinct (map fst sl)" and k: "fst ` set sl = fst ` set ?infos"
    and m2: "map_of sl (fst (?infos ! 2)) =
               Some ((fst (snd (?infos ! 2)))\<lparr>pos := sum_list (map (snd \<circ> snd) (take 2 ?infos))\<rparr>)"
    by auto
  from createSensorList_duplicate_id[OF infos _ l3] sl have
    m3: "map_of sl (fst (?infos ! 3)) =
               Some ((fst (snd (?infos ! 3)))\<lparr>pos := sum_list (map (snd \<circ> snd) (take 3 ?infos))\<rparr>)"
    by auto
  have a: "map_of sl (PInt 1) = Some ((new_sensor (PStr ''ohm''))\<lparr>name := Some (Text ''R''), pos := 3\<rparr>)"
    using m2 by (simp add: numeral_2_eq_2)
  have b: "map_of sl (PInt 5) =
           Some ((new_sensor (PStr ''inclinometer''))
                   \<lparr>inclinometer_type := Some (PInt 1), name := Some (Text ''pitch''), pos := 4\<rparr>)"
    using m3 by (simp add: numeral_3_eq_3)
  have c: "fst ` set sl = {PInt 1, PInt 2, PInt 5}" using k by auto
  show ?thesis using sl d a b c by blast
qed

section \<open>Properties of the telemetry decoding\<close>

subsection \<open>Rounding values that have two decimals\<close>







subsection \<open>Tanks\<close>

text \<open>
  C9. For a tank sensor whose element is the pair \<open>a\<close>, \<open>b\<close>, \<^verbatim>\<open>readTank\<close> raises
  nothing and stores \<open>a / 1000\<close> as the current level, \<open>b / 10\<close> as the remaining capacity
  and, as the percentage, the remaining capacity divided by the sensor's capacity times
  100, except that the percentage is 0 when the capacity is unset or 0.
\<close>

theorem readTank_values:
  assumes "getitem element elementId = Inr (IntPair a b)"
      and "getitem sensorList sensorId = Inr d"
  shows "readTank element sensorList sensorId elementId =
           Inr \<lparr>currentLevel = real_of_int a / 1000,
                remainingCapacity = real_of_int b / 10,
                percentage = (if capacity d = None \<or> capacity d = Some 0 then 0
                              else real_of_int b / 10 / the (capacity d) * 100)\<rparr>"
  using assms by (auto simp: readTank_def bindE_def truediv_def Let_def split: option.splits)

text \<open>
  The theorem for the capacity 0, for no capacity, and for the capacity 60.
\<close>

theorem readTank_values_witness:
  "readTank [(4, IntPair 250 300)] [(PInt 7, (new_sensor (PStr ''tank''))\<lparr>capacity := Some 0\<rparr>)] (PInt 7) 4
     = Inr \<lparr>currentLevel = 1 / 4, remainingCapacity = 30, percentage = 0\<rparr>
   \<and> readTank [(4, IntPair 250 300)] [(PInt 7, new_sensor (PStr ''tank''))] (PInt 7) 4
     = Inr \<lparr>currentLevel = 1 / 4, remainingCapacity = 30, percentage = 0\<rparr>
   \<and> readTank [(4, IntPair 250 300)] [(PInt 7, (new_sensor (PStr ''tank''))\<lparr>capacity := Some 60\<rparr>)] (PInt 7) 4
     = Inr \<lparr>currentLevel = 1 / 4, remainingCapacity = 30, percentage = 50\<rparr>"
proof -
  have e: "getitem [(4, IntPair 250 300)] (4::int) = Inr (IntPair 250 300)"
    by (simp add: getitem_def)
  have s: "getitem [(PInt 7, x)] (PInt 7) = Inr x" for x :: sensor
    by (simp add: getitem_def)
  show ?thesis
    using readTank_values[OF e s, of "(new_sensor (PStr ''tank''))\<lparr>capacity := Some 0\<rparr>"]
          readTank_values[OF e s, of "new_sensor (PStr ''tank'')"]
          readTank_values[OF e s, of "(new_sensor (PStr ''tank''))\<lparr>capacity := Some 60\<rparr>"]
    by (simp add: new_sensor_def)
qed

subsection \<open>The two scripts\<close>


end
